theory Spec2Isabelle
  imports Main
begin

section \<open>Data model (lib/types.ts, lib/hot-keys.tsx)\<close>

text \<open>
  \<^verbatim>\<open>type HotKey = string | { sequence: string; action: string }\<close>.
  A descriptor is a bare key sequence or a pair of a key sequence and the
  matcher's action discriminator (for instance keydown or keyup).
\<close>

datatype HotKey = Str string | SeqAct string string

text \<open>
  \<^verbatim>\<open>type HotKeyMap = Record<string, HotKey | HotKey[]>\<close>.
  The map holds the own properties of the object. A key map is spread, read
  by name and compared by lodash's \<^verbatim>\<open>isEqual\<close>, none of which depends on
  the order of the keys, so it is a finite map, and \<^verbatim>\<open>isEqual\<close> on two
  key maps is equality of maps (the entries are plain data, compared
  structurally). Spreading and \<^verbatim>\<open>isEqual\<close> see own properties only; a read
  by name also finds what the object inherits (\<open>getProperty\<close> below).
\<close>

datatype keyMapEntry = Single HotKey | Array "HotKey list"

type_synonym HotKeyMap = "string \<rightharpoonup> keyMapEntry"

text \<open>
  A scope object (an instance of the class \<^verbatim>\<open>HotKeys\<close>) is identified by its
  reference. A handler is a function value; lodash compares functions by
  reference, so a handler is identified by a reference as well. The raw
  keyboard event is opaque.
\<close>

type_synonym ref = nat
type_synonym handler = nat
type_synonym KeyboardEvent = nat

text \<open>
  The bind target given to the matcher: an explicit element, the window, or
  the scope's own rendered node, \<^verbatim>\<open>ReactDOM.findDOMNode(this)\<close>.
\<close>

datatype target = Element nat | Window | OwnNode ref

text \<open>
  \<^verbatim>\<open>interface SequenceHandler { callback; action?; sequence }\<close>.
  The callback built in \<^verbatim>\<open>syncHandlersToMousetrap\<close> is a closure over
  \<^verbatim>\<open>this\<close> and over the handler of the action; it is represented by this
  pair and run by \<open>callback_run\<close> below. The type declares \<open>sequence\<close> a
  string; at run time it is undefined (\<open>None\<close>) when it was read off a value
  that has no such property.
\<close>

record SequenceHandler =
  callback :: "ref \<times> handler"
  action :: "string option"
  sequence :: "string option"

text \<open>
  The matcher (Mousetrap) is external. An instance is modelled by the target
  it was constructed on and the \<^verbatim>\<open>bind\<close> calls it received since its last
  \<^verbatim>\<open>reset\<close>.
\<close>

record Mousetrap =
  boundTo :: target
  bindings :: "SequenceHandler list"

text \<open>
  \<^verbatim>\<open>HotKeysProps\<close>. An absent (undefined) property is \<open>None\<close>.
  \<open>handlers\<close> lists the own properties of the object in the order in which
  \<^verbatim>\<open>Object.keys\<close> enumerates them. \<open>attach\<close> is \<open>None\<close> when the key
  \<^verbatim>\<open>'attach'\<close> is not in the props, \<open>Some None\<close> when it is there with a
  null value; \<open>attachRef\<close> is \<open>None\<close> when no ref container was passed and
  \<open>Some None\<close> when the container's \<^verbatim>\<open>current\<close> is null.
\<close>

record HotKeysProps =
  keyMap :: "HotKeyMap option"
  handlers :: "(string \<times> handler) list option"
  focused :: "bool option"
  onFocusProp :: "nat option"
  onBlurProp :: "nat option"
  attach :: "target option option"
  attachRef :: "target option option"

text \<open>\<^verbatim>\<open>interface Context { hotKeyParent; hotKeyMap }\<close>, null is \<open>None\<close>.\<close>

record Context =
  hotKeyParent :: "ref option"
  hotKeyMap :: "HotKeyMap option"

text \<open>
  The instance fields of \<^verbatim>\<open>HotKeys\<close>: \<open>isFocused\<close> is
  \<^verbatim>\<open>__isFocused__\<close>, \<open>ownHotKeyMap\<close> is \<^verbatim>\<open>__hotKeyMap__\<close>,
  \<open>mousetrap\<close> is \<^verbatim>\<open>__mousetrap__\<close> and \<open>lastChildSequence\<close> is
  \<^verbatim>\<open>__lastChildSequence__\<close>; \<open>props\<close> and \<open>ctx\<close> are
  \<^verbatim>\<open>this.props\<close> and \<^verbatim>\<open>this.context\<close>.
\<close>

record HotKeys =
  props :: HotKeysProps
  ctx :: Context
  isFocused :: bool
  ownHotKeyMap :: "HotKeyMap option"
  mousetrap :: "Mousetrap option"
  lastChildSequence :: "HotKey option"

text \<open>
  What a run of the code does to the outside and to the delegation state, in
  order: the writes of \<^verbatim>\<open>__lastChildSequence__\<close>, the calls of handlers and
  of the \<^verbatim>\<open>onFocus\<close>/\<^verbatim>\<open>onBlur\<close> props, and the calls of the matcher.
\<close>

datatype effect =
    Wrote ref "HotKey option"
  | HandlerCalled handler "KeyboardEvent option" "string option"
  | MousetrapReset ref
  | MousetrapBind ref SequenceHandler
  | FocusPropCalled nat
  | BlurPropCalled nat

text \<open>The store of scope objects, by reference, and the effects so far.\<close>

record world =
  heap :: "ref \<Rightarrow> HotKeys"
  trace :: "effect list"

text \<open>
  A call either returns or throws; either way it leaves a state behind. The
  one exception the modelled code can meet is the \<^verbatim>\<open>TypeError\<close> that the
  matcher's \<^verbatim>\<open>bind\<close> throws (see \<open>mt_bind\<close>).
\<close>

datatype error = TypeError

datatype 'a outcome = Returned 'a | Threw error 'a

fun finalState :: "'a outcome \<Rightarrow> 'a" where
  "finalState (Returned x) = x"
| "finalState (Threw e x) = x"

section \<open>KeyMapMerger: buildMap, updateMap, getMap\<close>

text \<open>
  \<^verbatim>\<open>const parentMap = this.context.hotKeyMap || {};
  const thisMap = this.props.keyMap || {};
  return { ...parentMap, ...thisMap };\<close>
\<close>

definition orEmpty :: "HotKeyMap option \<Rightarrow> HotKeyMap" where
  "orEmpty m = (case m of None \<Rightarrow> Map.empty | Some km \<Rightarrow> km)"

definition buildMap :: "HotKeys \<Rightarrow> HotKeyMap" where
  "buildMap this =
     (let parentMap = orEmpty (hotKeyMap (ctx this));
          thisMap = orEmpty (keyMap (props this))
      in parentMap ++ thisMap)"

text \<open>
  \<^verbatim>\<open>isEqual(newMap, this.__hotKeyMap__)\<close>: an object is never equal to
  null.
\<close>

definition isEqualMap :: "HotKeyMap \<Rightarrow> HotKeyMap option \<Rightarrow> bool" where
  "isEqualMap newMap cached = (case cached of None \<Rightarrow> False | Some m \<Rightarrow> newMap = m)"

definition updateMap :: "HotKeys \<Rightarrow> bool \<times> HotKeys" where
  "updateMap this =
     (let newMap = buildMap this
      in if \<not> isEqualMap newMap (ownHotKeyMap this)
         then (True, this\<lparr>ownHotKeyMap := Some newMap\<rparr>)
         else (False, this))"

definition getMap :: "HotKeys \<Rightarrow> HotKeyMap option" where
  "getMap this = Some (orEmpty (ownHotKeyMap this))"

section \<open>SequenceResolver: utils/sequences-from-key-map.ts\<close>

text \<open>
  The key map handed to \<^verbatim>\<open>sequencesFromKeyMap\<close> is a plain object, and
  \<^verbatim>\<open>hotKeyMap[hotKeyName]\<close> reads through its prototype chain: a name with no
  own entry that \<^verbatim>\<open>Object.prototype\<close> defines yields the inherited member
  (a function, or the prototype object itself for \<^verbatim>\<open>__proto__\<close>). An own
  entry shadows the inherited one.
\<close>

definition objectPrototypeNames :: "string list" where
  "objectPrototypeNames =
     [''constructor'', ''hasOwnProperty'', ''isPrototypeOf'', ''propertyIsEnumerable'',
      ''toLocaleString'', ''toString'', ''valueOf'', ''__defineGetter__'',
      ''__defineSetter__'', ''__lookupGetter__'', ''__lookupSetter__'', ''__proto__'']"

datatype property = Undefined | Own keyMapEntry | Member string

definition getProperty :: "HotKeyMap \<Rightarrow> string \<Rightarrow> property" where
  "getProperty m name =
     (case m name of
        Some entry \<Rightarrow> Own entry
      | None \<Rightarrow> if name \<in> set objectPrototypeNames then Member name else Undefined)"

text \<open>
  What the returned list holds at run time: a descriptor, or the inherited
  member of \<^verbatim>\<open>Object.prototype\<close> of the given name.
\<close>

datatype resolved = Descriptor HotKey | Inherited string

text \<open>
  \<^verbatim>\<open>if (!hotKeyMap) return [];
  const sequences = hotKeyMap[hotKeyName];
  if (!sequences) return [hotKeyName];
  else if (Array.isArray(sequences)) return sequences;
  else return [sequences];\<close>
  The test \<^verbatim>\<open>!sequences\<close> holds for a missing entry and for the empty
  string; objects, functions and arrays, the empty array too, are truthy.
\<close>

fun falsy :: "property \<Rightarrow> bool" where
  "falsy Undefined = True"
| "falsy (Own (Single (Str s))) = (s = [])"
| "falsy (Own (Single (SeqAct s a))) = False"
| "falsy (Own (Array hs)) = False"
| "falsy (Member n) = False"

definition sequencesFromKeyMap :: "HotKeyMap option \<Rightarrow> string \<Rightarrow> resolved list" where
  "sequencesFromKeyMap hotKeyMap' hotKeyName =
     (case hotKeyMap' of
        None \<Rightarrow> []
      | Some m \<Rightarrow>
          (let sequences = getProperty m hotKeyName
           in if falsy sequences then [Descriptor (Str hotKeyName)]
              else (case sequences of
                      Own (Array hs) \<Rightarrow> map Descriptor hs
                    | Own (Single h) \<Rightarrow> [Descriptor h]
                    | Member n \<Rightarrow> [Inherited n]
                    | Undefined \<Rightarrow> [Descriptor (Str hotKeyName)])))"

section \<open>Delegation protocol: childHandledSequence\<close>

text \<open>The assignment \<^verbatim>\<open>this.__lastChildSequence__ = sequence\<close>.\<close>

definition writeLast :: "ref \<Rightarrow> HotKey option \<Rightarrow> world \<Rightarrow> world" where
  "writeLast this s w =
     w\<lparr>heap := (heap w)(this := (heap w this)\<lparr>lastChildSequence := s\<rparr>),
       trace := trace w @ [Wrote this s]\<rparr>"

text \<open>
  \<^verbatim>\<open>childHandledSequence(sequence = null) {
    this.__lastChildSequence__ = sequence;
    if (this.context.hotKeyParent)
      this.context.hotKeyParent.childHandledSequence(sequence);
  }\<close>
  The recursion follows the parent references; on a cyclic chain it would not
  return, which is the value \<open>None\<close>.
\<close>

partial_function (option) childHandledSequence ::
  "ref \<Rightarrow> HotKey option \<Rightarrow> world \<Rightarrow> world option" where
  "childHandledSequence this s w =
     (case hotKeyParent (ctx (heap (writeLast this s w) this)) of
        None \<Rightarrow> Some (writeLast this s w)
      | Some parent \<Rightarrow> childHandledSequence parent s (writeLast this s w))"

text \<open>
  The statement that occurs four times in the class:
  \<^verbatim>\<open>if (this.context.hotKeyParent)
    this.context.hotKeyParent.childHandledSequence(s);\<close>
\<close>

definition notifyParent :: "ref \<Rightarrow> HotKey option \<Rightarrow> world \<Rightarrow> world option" where
  "notifyParent this s w =
     (case hotKeyParent (ctx (heap w this)) of
        None \<Rightarrow> Some w
      | Some parent \<Rightarrow> childHandledSequence parent s w)"

section \<open>Focus gate: the callback bound to the matcher\<close>

text \<open>
  \<^verbatim>\<open>isBool(this.props.focused) ? this.props.focused : this.__isFocused__\<close>
\<close>

definition effectiveFocus :: "HotKeys \<Rightarrow> bool" where
  "effectiveFocus this =
     (case focused (props this) of Some b \<Rightarrow> b | None \<Rightarrow> isFocused this)"

text \<open>
  \<^verbatim>\<open>sequence !== this.__lastChildSequence__\<close>, where the fired sequence is a
  string or undefined (\<open>None\<close>) and the field holds a descriptor or null: the
  field is never undefined, so an undefined sequence always differs.
\<close>

definition differs :: "string option \<Rightarrow> HotKey option \<Rightarrow> bool" where
  "differs fired lastSeq =
     (case fired of None \<Rightarrow> True | Some s \<Rightarrow> lastSeq \<noteq> Some (Str s))"

text \<open>
  \<^verbatim>\<open>(event, sequence) => {
    const isFocused = ...;
    if (isFocused && sequence !== this.__lastChildSequence__) {
      if (this.context.hotKeyParent)
        this.context.hotKeyParent.childHandledSequence(sequence);
      return handler(event, sequence);
    }
  }\<close>
  An undefined sequence passed on to \<^verbatim>\<open>childHandledSequence\<close> takes the
  parameter's default, null.
\<close>

definition callback_run ::
  "ref \<Rightarrow> handler \<Rightarrow> KeyboardEvent option \<Rightarrow> string option \<Rightarrow> world \<Rightarrow> world option" where
  "callback_run this h event fired w =
     (if effectiveFocus (heap w this) \<and> differs fired (lastChildSequence (heap w this))
      then map_option (\<lambda>w'. w'\<lparr>trace := trace w' @ [HandlerCalled h event fired]\<rparr>)
             (notifyParent this (map_option Str fired) w)
      else Some w)"

section \<open>BindingSynchronizer: syncHandlersToMousetrap, updateHotKeys\<close>

text \<open>
  The two operations of a matcher instance that the class uses. Mousetrap's
  \<^verbatim>\<open>bind\<close> normalises the key combination it is given with
  \<^verbatim>\<open>combination.replace(...)\<close>: for a string it returns, for an undefined
  sequence it throws a \<^verbatim>\<open>TypeError\<close> and registers nothing.
\<close>

definition mt_reset :: "Mousetrap \<Rightarrow> Mousetrap" where
  "mt_reset m = m\<lparr>bindings := []\<rparr>"

definition mt_bind :: "SequenceHandler \<Rightarrow> Mousetrap \<Rightarrow> error + Mousetrap" where
  "mt_bind sh m =
     (case sequence sh of
        None \<Rightarrow> Inl TypeError
      | Some s \<Rightarrow> Inr (m\<lparr>bindings := bindings m @ [sh]\<rparr>))"

text \<open>
  \<^verbatim>\<open>if (isObject(sequence)) { action = sequence.action; sequence = sequence.sequence; }
  sequenceHandlers.push({ callback, action, sequence });\<close>
  lodash's \<^verbatim>\<open>isObject\<close> holds of objects and of functions; an inherited
  member has neither an \<^verbatim>\<open>action\<close> nor a \<^verbatim>\<open>sequence\<close> property.
\<close>

fun toSequenceHandler :: "ref \<Rightarrow> handler \<Rightarrow> resolved \<Rightarrow> SequenceHandler" where
  "toSequenceHandler this h (Descriptor (Str s)) =
     \<lparr>callback = (this, h), action = None, sequence = Some s\<rparr>"
| "toSequenceHandler this h (Descriptor (SeqAct s a)) =
     \<lparr>callback = (this, h), action = Some a, sequence = Some s\<rparr>"
| "toSequenceHandler this h (Inherited n) =
     \<lparr>callback = (this, h), action = None, sequence = None\<rparr>"

text \<open>\<^verbatim>\<open>const { handlers = {} } = this.props\<close>\<close>

definition handlersOf :: "HotKeysProps \<Rightarrow> (string \<times> handler) list" where
  "handlersOf p = (case handlers p of None \<Rightarrow> [] | Some hs \<Rightarrow> hs)"

text \<open>
  The two nested \<^verbatim>\<open>forEach\<close> iterations that fill \<^verbatim>\<open>sequenceHandlers\<close>: over
  the handlers in enumeration order, and for each over the sequences that
  \<^verbatim>\<open>sequencesFromKeyMap(this.getMap(), hotKey)\<close> returns.
\<close>

definition sequenceHandlersOf :: "ref \<Rightarrow> HotKeys \<Rightarrow> SequenceHandler list" where
  "sequenceHandlersOf r this =
     concat (map (\<lambda>(hotKey, h).
                    map (toSequenceHandler r h) (sequencesFromKeyMap (getMap this) hotKey))
                 (handlersOf (props this)))"

text \<open>
  \<^verbatim>\<open>sequenceHandlers.forEach(({ sequence, callback, action }) =>
    mousetrap.bind(sequence, callback, action));\<close>
  The loop ends at the first \<^verbatim>\<open>bind\<close> that throws. The result is the
  matcher and the calls made, the throwing one included.
\<close>

fun bindEach ::
  "ref \<Rightarrow> SequenceHandler list \<Rightarrow> Mousetrap \<Rightarrow> (Mousetrap \<times> effect list) outcome" where
  "bindEach this [] m = Returned (m, [])"
| "bindEach this (sh # shs) m =
     (case mt_bind sh m of
        Inl e \<Rightarrow> Threw e (m, [MousetrapBind this sh])
      | Inr m' \<Rightarrow>
          (case bindEach this shs m' of
             Returned (m'', calls) \<Rightarrow> Returned (m'', MousetrapBind this sh # calls)
           | Threw e (m'', calls) \<Rightarrow> Threw e (m'', MousetrapBind this sh # calls)))"

text \<open>
  \<^verbatim>\<open>if (mousetrap) {
    mousetrap.reset();
    sequenceHandlers.forEach(...);
  }\<close>
\<close>

definition syncHandlersToMousetrap :: "ref \<Rightarrow> world \<Rightarrow> world outcome" where
  "syncHandlersToMousetrap this w =
     (let sequenceHandlers = sequenceHandlersOf this (heap w this)
      in case mousetrap (heap w this) of
           None \<Rightarrow> Returned w
         | Some m \<Rightarrow>
             map_outcome
               (\<lambda>(m', calls).
                  w\<lparr>heap := (heap w)(this := (heap w this)\<lparr>mousetrap := Some m'\<rparr>),
                    trace := trace w @ MousetrapReset this # calls\<rparr>)
               (bindEach this sequenceHandlers (mt_reset m)))"

text \<open>
  utils/has-changed.ts: \<^verbatim>\<open>!isEqual(newValue, previousValue)\<close>, used on the
  two handler objects. Two objects are equal when they have the same own keys
  with equal values, in any order; functions are equal by reference.
\<close>

definition hasChanged :: "(string \<times> handler) list \<Rightarrow> (string \<times> handler) list \<Rightarrow> bool" where
  "hasChanged newValue previousValue = (map_of newValue \<noteq> map_of previousValue)"

text \<open>
  \<^verbatim>\<open>updateHotKeys(force = false, prevProps = {}) {
    const { handlers = {} } = this.props;
    const { handlers: prevHandlers = handlers } = prevProps;
    const keyMapHasChanged = this.updateMap();
    if (force || keyMapHasChanged || hasChanged(handlers, prevHandlers)) {
      if (this.context.hotKeyParent)
        this.context.hotKeyParent.childHandledSequence(null);
      this.syncHandlersToMousetrap();
    }
  }\<close>
\<close>

definition updateHotKeys ::
  "ref \<Rightarrow> bool \<Rightarrow> HotKeysProps \<Rightarrow> world \<Rightarrow> world outcome option" where
  "updateHotKeys this force prevProps w =
     (let handlers' = handlersOf (props (heap w this));
          prevHandlers = (case handlers prevProps of None \<Rightarrow> handlers' | Some hs \<Rightarrow> hs);
          keyMapHasChanged = fst (updateMap (heap w this));
          w1 = w\<lparr>heap := (heap w)(this := snd (updateMap (heap w this)))\<rparr>
      in if force \<or> keyMapHasChanged \<or> hasChanged handlers' prevHandlers
         then map_option (syncHandlersToMousetrap this) (notifyParent this None w1)
         else Some (Returned w1))"

section \<open>Lifecycle and focus transitions\<close>

text \<open>The empty object \<^verbatim>\<open>{}\<close> as a \<^verbatim>\<open>Partial<HotKeysProps>\<close>.\<close>

definition noProps :: HotKeysProps where
  "noProps = \<lparr>keyMap = None, handlers = None, focused = None, onFocusProp = None,
              onBlurProp = None, attach = None, attachRef = None\<rparr>"

definition componentWillMount :: "ref \<Rightarrow> world \<Rightarrow> world option" where
  "componentWillMount this w =
     Some (w\<lparr>heap := (heap w)(this := snd (updateMap (heap w this)))\<rparr>)"

text \<open>
  \<^verbatim>\<open>const el = 'attach' in this.props ? this.props.attach
                                        : this.props.attachRef?.current;
  this.__mousetrap__ = new Mousetrap((el || ReactDOM.findDOMNode(this)));\<close>
\<close>

definition attachTarget :: "ref \<Rightarrow> HotKeysProps \<Rightarrow> target" where
  "attachTarget this p =
     (let el = (case attach p of
                  Some a \<Rightarrow> a
                | None \<Rightarrow> (case attachRef p of None \<Rightarrow> None | Some current \<Rightarrow> current))
      in case el of Some t \<Rightarrow> t | None \<Rightarrow> OwnNode this)"

definition componentDidMount :: "ref \<Rightarrow> world \<Rightarrow> world outcome option" where
  "componentDidMount this w =
     updateHotKeys this True noProps
       (w\<lparr>heap := (heap w)(this := (heap w this)
              \<lparr>mousetrap := Some \<lparr>boundTo = attachTarget this (props (heap w this)),
                                 bindings = []\<rparr>\<rparr>)\<rparr>)"

definition componentDidUpdate ::
  "ref \<Rightarrow> HotKeysProps \<Rightarrow> world \<Rightarrow> world outcome option" where
  "componentDidUpdate this prevProps w = updateHotKeys this False prevProps w"

text \<open>
  \<^verbatim>\<open>componentWillUnmount() {
    if (this.context.hotKeyParent)
      this.context.hotKeyParent.childHandledSequence(null);
    if (this.__mousetrap__) this.__mousetrap__.reset();
  }\<close>
\<close>

definition resetMousetrap :: "ref \<Rightarrow> world \<Rightarrow> world" where
  "resetMousetrap this w =
     (case mousetrap (heap w this) of
        None \<Rightarrow> w
      | Some m \<Rightarrow>
          w\<lparr>heap := (heap w)(this := (heap w this)\<lparr>mousetrap := Some (mt_reset m)\<rparr>),
            trace := trace w @ [MousetrapReset this]\<rparr>)"

definition componentWillUnmount :: "ref \<Rightarrow> world \<Rightarrow> world option" where
  "componentWillUnmount this w = map_option (resetMousetrap this) (notifyParent this None w)"

text \<open>
  \<^verbatim>\<open>onFocus(...args) {
    this.__isFocused__ = true;
    if (this.props.onFocus) this.props.onFocus(...args);
  }\<close>
\<close>

definition onFocus :: "ref \<Rightarrow> world \<Rightarrow> world option" where
  "onFocus this w =
     Some (w\<lparr>heap := (heap w)(this := (heap w this)\<lparr>isFocused := True\<rparr>),
             trace := trace w @ (case onFocusProp (props (heap w this)) of
                                   None \<Rightarrow> [] | Some f \<Rightarrow> [FocusPropCalled f])\<rparr>)"

text \<open>
  \<^verbatim>\<open>onBlur(...args) {
    this.__isFocused__ = false;
    if (this.props.onBlur) this.props.onBlur(...args);
    if (this.context.hotKeyParent)
      this.context.hotKeyParent.childHandledSequence(null);
  }\<close>
\<close>

definition onBlur :: "ref \<Rightarrow> world \<Rightarrow> world option" where
  "onBlur this w =
     notifyParent this None
       (w\<lparr>heap := (heap w)(this := (heap w this)\<lparr>isFocused := False\<rparr>),
          trace := trace w @ (case onBlurProp (props (heap w this)) of
                                None \<Rightarrow> [] | Some f \<Rightarrow> [BlurPropCalled f])\<rparr>)"

section \<open>The operations of a scope\<close>

text \<open>
  Everything a scope does: its lifecycle methods, its focus and blur
  handlers, the callback it bound to the matcher, and \<open>childHandledSequence\<close>
  when a child calls it. \<open>perform\<close> runs one of them on the scope \<open>this\<close>.
\<close>

datatype operation =
    WillMount
  | DidMount
  | DidUpdate HotKeysProps
  | WillUnmount
  | Focus
  | Blur
  | MatcherCallback handler "KeyboardEvent option" "string option"
  | ChildHandled "HotKey option"

fun perform :: "operation \<Rightarrow> ref \<Rightarrow> world \<Rightarrow> world outcome option" where
  "perform WillMount this w = map_option Returned (componentWillMount this w)"
| "perform DidMount this w = componentDidMount this w"
| "perform (DidUpdate prevProps) this w = componentDidUpdate this prevProps w"
| "perform WillUnmount this w = map_option Returned (componentWillUnmount this w)"
| "perform Focus this w = map_option Returned (onFocus this w)"
| "perform Blur this w = map_option Returned (onBlur this w)"
| "perform (MatcherCallback h event fired) this w =
     map_option Returned (callback_run this h event fired w)"
| "perform (ChildHandled s) this w = map_option Returned (childHandledSequence this s w)"

section \<open>The ancestor chain\<close>

text \<open>
  \<open>ancestorChain h r ps\<close>: \<open>ps\<close> lists the ancestors of the scope \<open>r\<close> in the
  store \<open>h\<close>, from its parent (the nearest) to the root, following
  \<^verbatim>\<open>context.hotKeyParent\<close>. Such a list exists exactly when the chain of
  parent references from \<open>r\<close> is finite, as it is in a component tree.
\<close>

primrec ancestorChain :: "(ref \<Rightarrow> HotKeys) \<Rightarrow> ref \<Rightarrow> ref list \<Rightarrow> bool" where
  "ancestorChain h r [] = (hotKeyParent (ctx (h r)) = None)"
| "ancestorChain h r (p # ps) = (hotKeyParent (ctx (h r)) = Some p \<and> ancestorChain h p ps)"

text \<open>The writes of one value to the scopes of a list, in the list's order.\<close>

definition notified :: "HotKey option \<Rightarrow> ref list \<Rightarrow> world \<Rightarrow> world" where
  "notified s ps w = fold (\<lambda>p. writeLast p s) ps w"

text \<open>
  A history of focus and blur events delivered to one scope, oldest first:
  \<open>True\<close> is a focus event (\<^verbatim>\<open>onFocus\<close>), \<open>False\<close> a blur event
  (\<^verbatim>\<open>onBlur\<close>).
\<close>

primrec focusHistory :: "bool list \<Rightarrow> ref \<Rightarrow> world \<Rightarrow> world option" where
  "focusHistory [] this w = Some w"
| "focusHistory (e # es) this w =
     Option.bind (if e then onFocus this w else onBlur this w) (focusHistory es this)"

section \<open>A small tree for concrete evaluation\<close>

text \<open>
  Scope 0 is a root; scope 1 is its child; every other reference is a child of
  scope 1. The children received the root's key map through the context.
\<close>

definition rootKeyMap :: HotKeyMap where
  "rootKeyMap = [''x'' \<mapsto> Single (Str ''a''),
                 ''y'' \<mapsto> Array [Str ''b'', SeqAct ''c'' ''keyup'']]"

definition rootScope :: HotKeys where
  "rootScope =
     \<lparr>props = noProps\<lparr>keyMap := Some rootKeyMap, handlers := Some [(''x'', 10)]\<rparr>,
      ctx = \<lparr>hotKeyParent = None, hotKeyMap = None\<rparr>,
      isFocused = True, ownHotKeyMap = None, mousetrap = None,
      lastChildSequence = None\<rparr>"

definition childOf :: "ref \<Rightarrow> HotKeys" where
  "childOf p =
     \<lparr>props = noProps\<lparr>keyMap := Some [''x'' \<mapsto> Single (Str ''z'')],
                         handlers := Some [(''x'', 20), (''y'', 21)]\<rparr>,
      ctx = \<lparr>hotKeyParent = Some p, hotKeyMap = Some rootKeyMap\<rparr>,
      isFocused = True, ownHotKeyMap = None, mousetrap = None,
      lastChildSequence = None\<rparr>"

definition exampleHeap :: "ref \<Rightarrow> HotKeys" where
  "exampleHeap r = (if r = 0 then rootScope else if r = 1 then childOf 0 else childOf 1)"

definition exampleWorld :: world where
  "exampleWorld = \<lparr>heap = exampleHeap, trace = []\<rparr>"

text \<open>The same tree with \<^verbatim>\<open>focused={false}\<close> passed to scope 2.\<close>

definition forcedOffWorld :: world where
  "forcedOffWorld =
     exampleWorld\<lparr>heap := (heap exampleWorld)
        (2 := (childOf 1)\<lparr>props := (props (childOf 1))\<lparr>focused := Some False\<rparr>\<rparr>)\<rparr>"

text \<open>The root after \<^verbatim>\<open>componentWillMount\<close>, and the tree with it.\<close>

definition mountedRoot :: HotKeys where
  "mountedRoot = rootScope\<lparr>ownHotKeyMap := Some rootKeyMap\<rparr>"

definition mountedRootWorld :: world where
  "mountedRootWorld = exampleWorld\<lparr>heap := (heap exampleWorld)(0 := mountedRoot)\<rparr>"

text \<open>
  The tree after scope 2, mounted and bound, handled the sequence \<open>z\<close>: both
  ancestors hold it as their last handled sequence.
\<close>

definition handledWorld :: world where
  "handledWorld =
     exampleWorld\<lparr>heap := (heap exampleWorld)
        (0 := rootScope\<lparr>lastChildSequence := Some (Str ''z'')\<rparr>,
         1 := (childOf 0)\<lparr>lastChildSequence := Some (Str ''z'')\<rparr>,
         2 := (childOf 1)\<lparr>mousetrap := Some
                \<lparr>boundTo = OwnNode 2,
                 bindings = [\<lparr>callback = (2, 20), action = None, sequence = Some ''z''\<rparr>]\<rparr>\<rparr>)\<rparr>"

text \<open>
  The mounted root as it is when it was mounted without a \<^verbatim>\<open>handlers\<close>
  prop and has just received one: nothing is bound, the merged map is up to
  date, and the previous props differ from the current ones in having no
  handlers.
\<close>

definition lateHandlersWorld :: world where
  "lateHandlersWorld =
     exampleWorld\<lparr>heap := (heap exampleWorld)
        (0 := mountedRoot\<lparr>mousetrap := Some \<lparr>boundTo = OwnNode 0, bindings = []\<rparr>\<rparr>)\<rparr>"

definition lateHandlersPrevProps :: HotKeysProps where
  "lateHandlersPrevProps = (props mountedRoot)\<lparr>handlers := None\<rparr>"

text \<open>
  A scope as \<^verbatim>\<open>componentWillMount\<close> and \<^verbatim>\<open>componentDidMount\<close> leave it
  when every \<^verbatim>\<open>bind\<close> call returned: the merged map cached and the
  matcher, on its bind target, holding one binding per resolved sequence.
\<close>

definition mounted :: "ref \<Rightarrow> HotKeys \<Rightarrow> HotKeys" where
  "mounted r x =
     x\<lparr>ownHotKeyMap := Some (buildMap x),
       mousetrap := Some
         \<lparr>boundTo = attachTarget r (props x),
          bindings = sequenceHandlersOf r (x\<lparr>ownHotKeyMap := Some (buildMap x)\<rparr>)\<rparr>\<rparr>"

text \<open>
  The tree with all three scopes mounted. Scope 2 was mounted without a
  \<^verbatim>\<open>handlers\<close> prop and has just received one; its ancestors hold the
  sequence \<open>z\<close>, handled by another child of scope 1, as their last handled
  sequence.
\<close>

definition lateChildPrevProps :: HotKeysProps where
  "lateChildPrevProps = (props (childOf 1))\<lparr>handlers := None\<rparr>"

definition lateChildWorld :: world where
  "lateChildWorld =
     exampleWorld\<lparr>heap := (heap exampleWorld)
        (0 := (mounted 0 rootScope)\<lparr>lastChildSequence := Some (Str ''z'')\<rparr>,
         1 := (mounted 1 (childOf 0))\<lparr>lastChildSequence := Some (Str ''z'')\<rparr>,
         2 := (mounted 2 ((childOf 1)\<lparr>props := lateChildPrevProps\<rparr>))
                \<lparr>props := props (childOf 1)\<rparr>)\<rparr>"

text \<open>
  The tree with a root whose handlers include one under the name
  \<open>constructor\<close>, which its key map does not define.
\<close>

definition inheritedNameWorld :: world where
  "inheritedNameWorld =
     exampleWorld\<lparr>heap := (heap exampleWorld)
        (0 := rootScope\<lparr>props := (props rootScope)
                \<lparr>handlers := Some [(''x'', 10), (''constructor'', 11), (''y'', 12)]\<rparr>\<rparr>)\<rparr>"

section \<open>Facts about the ancestor chain and upward notification\<close>

lemma ancestorChain_cong:
  "(\<And>r. hotKeyParent (ctx (h' r)) = hotKeyParent (ctx (h r))) \<Longrightarrow>
   ancestorChain h' r ps = ancestorChain h r ps"
  by (induction ps arbitrary: r) simp_all

lemma heap_writeLast:
  "heap (writeLast p s w) r = (if r = p then (heap w p)\<lparr>lastChildSequence := s\<rparr> else heap w r)"
  by (simp add: writeLast_def)

lemma trace_writeLast: "trace (writeLast p s w) = trace w @ [Wrote p s]"
  by (simp add: writeLast_def)

lemma ancestorChain_writeLast:
  "ancestorChain (heap (writeLast p s w)) r ps = ancestorChain (heap w) r ps"
  by (rule ancestorChain_cong) (simp add: heap_writeLast)

lemma notified_Nil: "notified s [] w = w"
  by (simp add: notified_def)

lemma notified_Cons: "notified s (p # ps) w = notified s ps (writeLast p s w)"
  by (simp add: notified_def)

lemma childHandledSequence_chain:
  "ancestorChain (heap w) r ps \<Longrightarrow> childHandledSequence r s w = Some (notified s (r # ps) w)"
proof (induction ps arbitrary: r w)
  case Nil
  then show ?case
    by (subst childHandledSequence.simps) (simp add: heap_writeLast notified_Cons notified_Nil)
next
  case (Cons p ps)
  from Cons.prems have par: "hotKeyParent (ctx (heap w r)) = Some p"
    and ch: "ancestorChain (heap w) p ps" by simp_all
  from ch have "ancestorChain (heap (writeLast r s w)) p ps"
    by (simp add: ancestorChain_writeLast)
  then have "childHandledSequence p s (writeLast r s w) = Some (notified s (p # ps) (writeLast r s w))"
    by (rule Cons.IH)
  with par show ?case
    by (subst childHandledSequence.simps) (simp add: heap_writeLast notified_Cons)
qed

lemma notifyParent_chain:
  "ancestorChain (heap w) this ps \<Longrightarrow> notifyParent this s w = Some (notified s ps w)"
  by (cases ps) (simp_all add: notifyParent_def notified_Nil childHandledSequence_chain)

lemma heap_notified:
  "heap (notified s ps w) r =
     (if r \<in> set ps then (heap w r)\<lparr>lastChildSequence := s\<rparr> else heap w r)"
  by (induction ps arbitrary: w) (simp_all add: notified_Nil notified_Cons heap_writeLast)

lemma trace_notified: "trace (notified s ps w) = trace w @ map (\<lambda>p. Wrote p s) ps"
  by (induction ps arbitrary: w) (simp_all add: notified_Nil notified_Cons trace_writeLast)

lemma notified_eq:
  "notified s ps w =
     w\<lparr>heap := (\<lambda>r. if r \<in> set ps then (heap w r)\<lparr>lastChildSequence := s\<rparr> else heap w r),
       trace := trace w @ map (\<lambda>p. Wrote p s) ps\<rparr>"
  by (rule world.equality) (simp_all add: heap_notified trace_notified fun_eq_iff)

lemma ancestorChain_unique:
  "ancestorChain h r ps \<Longrightarrow> ancestorChain h r qs \<Longrightarrow> ps = qs"
proof (induction ps arbitrary: r qs)
  case Nil
  then show ?case by (cases qs) simp_all
next
  case (Cons p ps)
  then show ?case by (cases qs) auto
qed

lemma ancestorChain_suffix:
  "ancestorChain h r (xs @ p # ys) \<Longrightarrow> ancestorChain h p ys"
  by (induction xs arbitrary: r) auto

lemma ancestorChain_not_self:
  assumes "ancestorChain h r ps"
  shows "r \<notin> set ps"
proof
  assume "r \<in> set ps"
  then obtain xs ys where ps: "ps = xs @ r # ys"
    by (auto dest: split_list)
  with assms have "ancestorChain h r ys"
    by (auto dest: ancestorChain_suffix)
  with assms have "ps = ys"
    by (rule ancestorChain_unique)
  with ps show False by simp
qed

lemma onFocus_result:
  "onFocus this w =
     Some (w\<lparr>heap := (heap w)(this := (heap w this)\<lparr>isFocused := True\<rparr>),
             trace := trace w @ (case onFocusProp (props (heap w this)) of
                                   None \<Rightarrow> [] | Some f \<Rightarrow> [FocusPropCalled f])\<rparr>)"
  by (simp add: onFocus_def)

lemma onBlur_chain:
  assumes "ancestorChain (heap w) this ps"
  shows "onBlur this w =
     Some (notified None ps
       (w\<lparr>heap := (heap w)(this := (heap w this)\<lparr>isFocused := False\<rparr>),
          trace := trace w @ (case onBlurProp (props (heap w this)) of
                                None \<Rightarrow> [] | Some f \<Rightarrow> [BlurPropCalled f])\<rparr>))"
proof -
  let ?w1 = "w\<lparr>heap := (heap w)(this := (heap w this)\<lparr>isFocused := False\<rparr>),
          trace := trace w @ (case onBlurProp (props (heap w this)) of
                                None \<Rightarrow> [] | Some f \<Rightarrow> [BlurPropCalled f])\<rparr>"
  have "ancestorChain (heap ?w1) this ps = ancestorChain (heap w) this ps"
    by (rule ancestorChain_cong) simp
  with assms have "ancestorChain (heap ?w1) this ps" by simp
  then have "notifyParent this None ?w1 = Some (notified None ps ?w1)"
    by (rule notifyParent_chain)
  then show ?thesis by (simp add: onBlur_def)
qed

lemma focus_event_keeps:
  assumes "ancestorChain (heap w) this ps"
  shows "\<exists>w'. (if e then onFocus this w else onBlur this w) = Some w'
           \<and> props (heap w' this) = props (heap w this)
           \<and> ancestorChain (heap w') this ps"
proof (cases e)
  case True
  have "ancestorChain (heap (w\<lparr>heap := (heap w)(this := (heap w this)\<lparr>isFocused := True\<rparr>),
             trace := trace w @ (case onFocusProp (props (heap w this)) of
                                   None \<Rightarrow> [] | Some f \<Rightarrow> [FocusPropCalled f])\<rparr>)) this ps
        = ancestorChain (heap w) this ps"
    by (rule ancestorChain_cong) simp
  with True assms show ?thesis by (simp add: onFocus_result)
next
  case False
  let ?w1 = "w\<lparr>heap := (heap w)(this := (heap w this)\<lparr>isFocused := False\<rparr>),
          trace := trace w @ (case onBlurProp (props (heap w this)) of
                                None \<Rightarrow> [] | Some f \<Rightarrow> [BlurPropCalled f])\<rparr>"
  have "ancestorChain (heap (notified None ps ?w1)) this ps = ancestorChain (heap w) this ps"
    by (rule ancestorChain_cong) (simp add: heap_notified)
  with False assms show ?thesis
    by (simp add: onBlur_chain heap_notified)
qed

lemma forced_off_suppresses:
  "focused (props (heap w this)) = Some False \<Longrightarrow> callback_run this h event fired w = Some w"
  by (simp add: callback_run_def effectiveFocus_def)

lemma buildMap_cache_irrelevant: "buildMap (this\<lparr>ownHotKeyMap := c\<rparr>) = buildMap this"
  by (simp add: buildMap_def)

lemma updateMap_result:
  "updateMap this =
     (if ownHotKeyMap this = Some (buildMap this) then (False, this)
      else (True, this\<lparr>ownHotKeyMap := Some (buildMap this)\<rparr>))"
  by (auto simp: updateMap_def isEqualMap_def Let_def split: option.split)

section \<open>Facts about synchronisation and the lifecycle\<close>

lemma finalState_map_outcome: "finalState (map_outcome f out) = f (finalState out)"
  by (cases out) simp_all

lemma bindEach_strings:
  "\<forall>sh \<in> set shs. sequence sh \<noteq> None \<Longrightarrow>
   bindEach this shs m =
     Returned (m\<lparr>bindings := bindings m @ shs\<rparr>, map (MousetrapBind this) shs)"
  by (induction shs arbitrary: m) (auto simp: mt_bind_def)


lemma syncHandlersToMousetrap_strings:
  assumes "\<forall>sh \<in> set (sequenceHandlersOf this (heap w this)). sequence sh \<noteq> None"
  shows "syncHandlersToMousetrap this w =
     Returned (case mousetrap (heap w this) of
        None \<Rightarrow> w
      | Some m \<Rightarrow>
          w\<lparr>heap := (heap w)(this := (heap w this)
                 \<lparr>mousetrap := Some (m\<lparr>bindings := sequenceHandlersOf this (heap w this)\<rparr>)\<rparr>),
            trace := trace w @ MousetrapReset this
                       # map (MousetrapBind this) (sequenceHandlersOf this (heap w this))\<rparr>)"
  by (simp add: syncHandlersToMousetrap_def bindEach_strings [OF assms] mt_reset_def Let_def
      split: option.split)

lemma heap_sync_other:
  "r \<noteq> this \<Longrightarrow> heap (finalState (syncHandlersToMousetrap this w)) r = heap w r"
  by (simp add: syncHandlersToMousetrap_def Let_def finalState_map_outcome
      split: option.split prod.split)

lemma heap_sync_this:
  "(heap (finalState (syncHandlersToMousetrap this w)) this)
       \<lparr>mousetrap := mousetrap (heap w this)\<rparr> = heap w this"
  by (simp add: syncHandlersToMousetrap_def Let_def finalState_map_outcome
      split: option.split prod.split)


lemma trace_sync:
  "\<exists>post. trace (finalState (syncHandlersToMousetrap this w)) = trace w @ post"
  by (simp add: syncHandlersToMousetrap_def Let_def finalState_map_outcome
      split: option.split prod.split)

lemma ctx_updateMap: "ctx (snd (updateMap x)) = ctx x"
  by (simp add: updateMap_result)

lemma props_updateMap: "props (snd (updateMap x)) = props x"
  by (simp add: updateMap_result)


lemma updateHotKeys_chain:
  assumes "ancestorChain (heap w) this ps"
  shows "updateHotKeys this force prevProps w =
     Some (if force \<or> fst (updateMap (heap w this))
              \<or> hasChanged (handlersOf (props (heap w this)))
                   (case handlers prevProps of
                      None \<Rightarrow> handlersOf (props (heap w this)) | Some hs \<Rightarrow> hs)
           then syncHandlersToMousetrap this
                  (notified None ps (w\<lparr>heap := (heap w)(this := snd (updateMap (heap w this)))\<rparr>))
           else Returned (w\<lparr>heap := (heap w)(this := snd (updateMap (heap w this)))\<rparr>))"
proof -
  let ?w1 = "w\<lparr>heap := (heap w)(this := snd (updateMap (heap w this)))\<rparr>"
  have "ancestorChain (heap ?w1) this ps = ancestorChain (heap w) this ps"
    by (rule ancestorChain_cong) (simp add: ctx_updateMap)
  with assms have "ancestorChain (heap ?w1) this ps" by simp
  then have "notifyParent this None ?w1 = Some (notified None ps ?w1)"
    by (rule notifyParent_chain)
  then show ?thesis
    by (simp add: updateHotKeys_def Let_def)
qed

lemma componentWillUnmount_chain:
  assumes "ancestorChain (heap w) this ps"
  shows "componentWillUnmount this w = Some (resetMousetrap this (notified None ps w))"
  using notifyParent_chain [OF assms, of None]
  by (simp add: componentWillUnmount_def)



lemma frame_from_shape:
  assumes h: "\<And>r. r \<noteq> this \<Longrightarrow>
                heap w' r = (if r \<in> set ns then (heap w r)\<lparr>lastChildSequence := s\<rparr>
                             else heap w r)"
    and t: "trace w' = trace w @ pre @ map (\<lambda>p. Wrote p s) ns @ post"
    and n: "set ns \<subseteq> set ps"
  shows "\<forall>r. r \<noteq> this \<longrightarrow>
           props (heap w' r) = props (heap w r)
         \<and> ctx (heap w' r) = ctx (heap w r)
         \<and> isFocused (heap w' r) = isFocused (heap w r)
         \<and> ownHotKeyMap (heap w' r) = ownHotKeyMap (heap w r)
         \<and> mousetrap (heap w' r) = mousetrap (heap w r)
         \<and> (lastChildSequence (heap w' r) \<noteq> lastChildSequence (heap w r) \<longrightarrow>
               r \<in> set ps
             \<and> Wrote r (lastChildSequence (heap w' r))
                  \<in> set (drop (length (trace w)) (trace w')))"
proof (intro allI impI)
  fix r assume "r \<noteq> this"
  from h [OF this] n show
    "props (heap w' r) = props (heap w r)
         \<and> ctx (heap w' r) = ctx (heap w r)
         \<and> isFocused (heap w' r) = isFocused (heap w r)
         \<and> ownHotKeyMap (heap w' r) = ownHotKeyMap (heap w r)
         \<and> mousetrap (heap w' r) = mousetrap (heap w r)
         \<and> (lastChildSequence (heap w' r) \<noteq> lastChildSequence (heap w r) \<longrightarrow>
               r \<in> set ps
             \<and> Wrote r (lastChildSequence (heap w' r))
                  \<in> set (drop (length (trace w)) (trace w')))"
    by (auto simp: t split: if_splits)
qed

lemma heap_resetMousetrap_other:
  "r \<noteq> this \<Longrightarrow> heap (resetMousetrap this w) r = heap w r"
  by (simp add: resetMousetrap_def split: option.split)

lemma trace_resetMousetrap:
  "trace (resetMousetrap this w) =
     trace w @ (case mousetrap (heap w this) of None \<Rightarrow> [] | Some m \<Rightarrow> [MousetrapReset this])"
  by (simp add: resetMousetrap_def split: option.split)

lemma callback_run_chain:
  assumes "ancestorChain (heap w) this ps"
  shows "callback_run this h event fired w =
     Some (if effectiveFocus (heap w this) \<and> differs fired (lastChildSequence (heap w this))
           then (notified (map_option Str fired) ps w)
                  \<lparr>trace := trace (notified (map_option Str fired) ps w)
                             @ [HandlerCalled h event fired]\<rparr>
           else w)"
  by (simp add: callback_run_def notifyParent_chain [OF assms])

section \<open>Facts about names that the key map inherits\<close>

lemma sequencesFromKeyMap_inherited:
  "m name = None \<Longrightarrow> name \<in> set objectPrototypeNames \<Longrightarrow>
   sequencesFromKeyMap (Some m) name = [Inherited name]"
  by (simp add: sequencesFromKeyMap_def getProperty_def)

lemma mount_inherited_name_throws:
  "componentDidMount 0 inheritedNameWorld =
     Some (Threw TypeError (inheritedNameWorld
        \<lparr>heap := (heap inheritedNameWorld)
           (0 := (heap inheritedNameWorld 0)
              \<lparr>ownHotKeyMap := Some rootKeyMap,
               mousetrap := Some
                 \<lparr>boundTo = OwnNode 0,
                  bindings = [\<lparr>callback = (0, 10), action = None, sequence = Some ''a''\<rparr>]\<rparr>\<rparr>),
         trace := [MousetrapReset 0,
                   MousetrapBind 0 \<lparr>callback = (0, 10), action = None, sequence = Some ''a''\<rparr>,
                   MousetrapBind 0 \<lparr>callback = (0, 11), action = None, sequence = None\<rparr>]\<rparr>))"
proof -
  have c: "ancestorChain (heap (inheritedNameWorld\<lparr>heap := (heap inheritedNameWorld)
             (0 := (heap inheritedNameWorld 0)\<lparr>mousetrap := Some
                \<lparr>boundTo = attachTarget 0 (props (heap inheritedNameWorld 0)),
                 bindings = []\<rparr>\<rparr>)\<rparr>)) 0 []"
    by (simp add: inheritedNameWorld_def exampleWorld_def exampleHeap_def rootScope_def)
  have r: "componentDidMount 0 inheritedNameWorld =
      Some (syncHandlersToMousetrap 0
        (inheritedNameWorld\<lparr>heap := (heap inheritedNameWorld)
           (0 := snd (updateMap ((heap inheritedNameWorld 0)\<lparr>mousetrap := Some
                \<lparr>boundTo = attachTarget 0 (props (heap inheritedNameWorld 0)),
                 bindings = []\<rparr>\<rparr>)))\<rparr>))"
    using updateHotKeys_chain [OF c, of True noProps]
    by (simp add: componentDidMount_def notified_Nil)
  show ?thesis
    unfolding r
    by (simp add: syncHandlersToMousetrap_def updateMap_result mt_reset_def mt_bind_def
        inheritedNameWorld_def exampleWorld_def exampleHeap_def rootScope_def noProps_def
        attachTarget_def buildMap_def orEmpty_def sequenceHandlersOf_def handlersOf_def
        getMap_def sequencesFromKeyMap_def getProperty_def objectPrototypeNames_def
        rootKeyMap_def)
qed

section \<open>The key map merger\<close>

text \<open>
  C3. buildMap binds every action name of the local map to the local entry,
  whole, and every action name that only the ancestor's map has to the
  ancestor's entry; it binds no other name. An absent map counts as empty.
\<close>

theorem buildMap_local_wins:
  "buildMap this name =
     (case orEmpty (keyMap (props this)) name of
        Some localEntry \<Rightarrow> Some localEntry
      | None \<Rightarrow> orEmpty (hotKeyMap (ctx this)) name)"
  by (simp add: buildMap_def map_add_def)

theorem buildMap_local_wins_witness:
  "buildMap (childOf 0) ''x'' = Some (Single (Str ''z''))
   \<and> buildMap (childOf 0) ''y'' = Some (Array [Str ''b'', SeqAct ''c'' ''keyup''])
   \<and> buildMap (childOf 0) ''w'' = None"
  using buildMap_local_wins [of "childOf 0" "''x''"] buildMap_local_wins [of "childOf 0" "''y''"]
    buildMap_local_wins [of "childOf 0" "''w''"]
  by (simp add: childOf_def noProps_def orEmpty_def rootKeyMap_def)


section \<open>The focus gate\<close>

text \<open>
  C1. Let \<open>ps\<close> be the ancestors of a scope, nearest first. When the scope's
  effective focus is true and the fired sequence \<open>s\<close> differs from its
  \<open>lastChildSequence\<close>, the callback writes \<open>s\<close> to \<open>lastChildSequence\<close> of
  every ancestor, in the order nearest to root, changes nothing else in the
  store, and calls the handler with the event and \<open>s\<close> after the last of
  these writes. When \<open>s\<close> equals the scope's \<open>lastChildSequence\<close>, the
  callback returns with the world unchanged: no write and no handler call.
\<close>

theorem focus_gate_notifies_then_invokes:
  assumes "ancestorChain (heap w) this ps"
  shows "(effectiveFocus (heap w this) \<and> lastChildSequence (heap w this) \<noteq> Some (Str s) \<longrightarrow>
            callback_run this h event (Some s) w =
              Some (w\<lparr>heap := (\<lambda>r. if r \<in> set ps
                                     then (heap w r)\<lparr>lastChildSequence := Some (Str s)\<rparr>
                                     else heap w r),
                      trace := trace w @ map (\<lambda>p. Wrote p (Some (Str s))) ps
                                 @ [HandlerCalled h event (Some s)]\<rparr>))
       \<and> (lastChildSequence (heap w this) = Some (Str s) \<longrightarrow>
            callback_run this h event (Some s) w = Some w)"
  using assms
  by (simp add: callback_run_def differs_def notifyParent_chain notified_eq)

theorem focus_gate_notifies_then_invokes_witness:
  "ancestorChain (heap exampleWorld) 2 [1, 0]
   \<and> map_option trace (callback_run 2 20 None (Some ''z'') exampleWorld) =
       Some [Wrote 1 (Some (Str ''z'')), Wrote 0 (Some (Str ''z'')),
             HandlerCalled 20 None (Some ''z'')]
   \<and> callback_run 0 10 None (Some ''a'')
         (exampleWorld\<lparr>heap := (heap exampleWorld)(0 := rootScope\<lparr>lastChildSequence := Some (Str ''a'')\<rparr>)\<rparr>)
       = Some (exampleWorld\<lparr>heap := (heap exampleWorld)(0 := rootScope\<lparr>lastChildSequence := Some (Str ''a'')\<rparr>)\<rparr>)"
proof -
  have c: "ancestorChain (heap exampleWorld) 2 [1, 0]"
    by (simp add: exampleWorld_def exampleHeap_def rootScope_def childOf_def)
  have c0: "ancestorChain (heap (exampleWorld\<lparr>heap := (heap exampleWorld)(0 := rootScope\<lparr>lastChildSequence := Some (Str ''a'')\<rparr>)\<rparr>)) 0 []"
    by (simp add: exampleWorld_def exampleHeap_def rootScope_def childOf_def)
  show ?thesis
    using c focus_gate_notifies_then_invokes [OF c, of "''z''" 20 None]
      focus_gate_notifies_then_invokes [OF c0, of "''a''" 10 None]
    by (simp add: exampleWorld_def exampleHeap_def rootScope_def childOf_def effectiveFocus_def noProps_def)
qed

text \<open>
  C2. A scope whose \<^verbatim>\<open>focused\<close> prop is \<open>false\<close> keeps an effective focus
  of false through every history of focus and blur events it receives, and
  after any such history its callback, for every handler, event and fired
  sequence, returns with the world unchanged: no handler is called. The
  effective focus is the \<^verbatim>\<open>focused\<close> prop when that is a boolean and the
  observed focus otherwise.
\<close>

theorem forced_focus_false_never_invokes:
  assumes "focused (props (heap w this)) = Some False"
    and "ancestorChain (heap w) this ps"
  shows "(\<exists>w'. focusHistory es this w = Some w'
            \<and> \<not> effectiveFocus (heap w' this)
            \<and> (\<forall>h event fired. callback_run this h event fired w' = Some w'))
       \<and> effectiveFocus x = (case focused (props x) of Some b \<Rightarrow> b | None \<Rightarrow> isFocused x)"
proof
  from assms
  show "\<exists>w'. focusHistory es this w = Some w'
            \<and> \<not> effectiveFocus (heap w' this)
            \<and> (\<forall>h event fired. callback_run this h event fired w' = Some w')"
  proof (induction es arbitrary: w)
    case Nil
    then show ?case by (simp add: forced_off_suppresses effectiveFocus_def)
  next
    case (Cons e es)
    from focus_event_keeps [OF Cons.prems(2), of e]
    obtain w1 where step: "(if e then onFocus this w else onBlur this w) = Some w1"
      and p: "props (heap w1 this) = props (heap w this)"
      and c: "ancestorChain (heap w1) this ps" by blast
    from p Cons.prems(1) have "focused (props (heap w1 this)) = Some False" by simp
    from Cons.IH [OF this c] step show ?case by simp
  qed
next
  show "effectiveFocus x = (case focused (props x) of Some b \<Rightarrow> b | None \<Rightarrow> isFocused x)"
    by (simp add: effectiveFocus_def)
qed

theorem forced_focus_false_never_invokes_witness:
  "focused (props (heap forcedOffWorld 2)) = Some False
   \<and> ancestorChain (heap forcedOffWorld) 2 [1, 0]
   \<and> (\<exists>w'. focusHistory [False, True] 2 forcedOffWorld = Some w'
          \<and> isFocused (heap w' 2)
          \<and> callback_run 2 20 None (Some ''z'') w' = Some w')"
proof -
  have f: "focused (props (heap forcedOffWorld 2)) = Some False"
    by (simp add: forcedOffWorld_def)
  have c: "ancestorChain (heap forcedOffWorld) 2 [1, 0]"
    by (simp add: forcedOffWorld_def exampleWorld_def exampleHeap_def rootScope_def childOf_def)
  have foc: "\<exists>w'. focusHistory [False, True] 2 forcedOffWorld = Some w' \<and> isFocused (heap w' 2)"
    by (simp add: onBlur_chain [OF c] onFocus_result)
  from forced_focus_false_never_invokes [OF f c, of "[False, True]"] foc f c
  show ?thesis by auto
qed

section \<open>The sequence resolver\<close>

text \<open>
  C4, as stated, fails twice. For an entry that is the empty string the test
  \<^verbatim>\<open>!sequences\<close> takes the entry for a missing one, and the action name is
  returned in place of the wrapped entry. For an action name that has no
  entry but is the name of a member of \<^verbatim>\<open>Object.prototype\<close>, the lookup
  finds the inherited member, and the list returned holds that member, not
  the action name.
\<close>

theorem sequencesFromKeyMap_counterexample:
  "sequencesFromKeyMap (Some [''y'' \<mapsto> Single (Str '''')]) ''y'' \<noteq> [Descriptor (Str '''')]
   \<and> sequencesFromKeyMap (Some Map.empty) ''toString'' \<noteq> [Descriptor (Str ''toString'')]"
  by (simp add: sequencesFromKeyMap_def getProperty_def objectPrototypeNames_def)

text \<open>
  C4, amended. For a key map and an action name that has an entry of its own
  in the map or is not the name of a member of \<^verbatim>\<open>Object.prototype\<close>,
  \<open>sequencesFromKeyMap\<close> returns the one-element list of the action name
  when the name has no entry or its entry is the empty string; the entry
  itself when the entry is a list; and the one-element list of the entry when
  the entry is a non-empty string or a pair of sequence and action.
\<close>

theorem sequencesFromKeyMap_cases:
  assumes "m name \<noteq> None \<or> name \<notin> set objectPrototypeNames"
  shows "sequencesFromKeyMap (Some m) name =
     (case m name of
        None \<Rightarrow> [Descriptor (Str name)]
      | Some (Array hs) \<Rightarrow> map Descriptor hs
      | Some (Single (SeqAct s a)) \<Rightarrow> [Descriptor (SeqAct s a)]
      | Some (Single (Str s)) \<Rightarrow>
          (if s = '''' then [Descriptor (Str name)] else [Descriptor (Str s)]))"
  using assms
  by (auto simp: sequencesFromKeyMap_def getProperty_def
      split: option.split keyMapEntry.split HotKey.split)

theorem sequencesFromKeyMap_cases_witness:
  "''y'' \<notin> set objectPrototypeNames
   \<and> sequencesFromKeyMap (Some Map.empty) ''y'' = [Descriptor (Str ''y'')]
   \<and> sequencesFromKeyMap (Some [''y'' \<mapsto> Array [Str ''a'', Str ''b'']]) ''y''
       = [Descriptor (Str ''a''), Descriptor (Str ''b'')]
   \<and> sequencesFromKeyMap (Some [''y'' \<mapsto> Single (Str ''a'')]) ''y'' = [Descriptor (Str ''a'')]
   \<and> sequencesFromKeyMap (Some [''y'' \<mapsto> Single (SeqAct ''a'' ''keyup'')]) ''y''
       = [Descriptor (SeqAct ''a'' ''keyup'')]
   \<and> sequencesFromKeyMap (Some [''y'' \<mapsto> Single (Str '''')]) ''y'' = [Descriptor (Str ''y'')]
   \<and> sequencesFromKeyMap (Some [''toString'' \<mapsto> Single (Str ''t'')]) ''toString''
       = [Descriptor (Str ''t'')]"
proof -
  have n: "''y'' \<notin> set objectPrototypeNames"
    by (simp add: objectPrototypeNames_def)
  from n sequencesFromKeyMap_cases [of Map.empty "''y''"]
    sequencesFromKeyMap_cases [of "[''y'' \<mapsto> Array [Str ''a'', Str ''b'']]" "''y''"]
    sequencesFromKeyMap_cases [of "[''y'' \<mapsto> Single (Str ''a'')]" "''y''"]
    sequencesFromKeyMap_cases [of "[''y'' \<mapsto> Single (SeqAct ''a'' ''keyup'')]" "''y''"]
    sequencesFromKeyMap_cases [of "[''y'' \<mapsto> Single (Str '''')]" "''y''"]
    sequencesFromKeyMap_cases [of "[''toString'' \<mapsto> Single (Str ''t'')]" "''toString''"]
  show ?thesis by simp
qed

section \<open>The cached merged map\<close>

text \<open>
  C5. \<open>updateMap\<close> compares the map that \<open>buildMap\<close> returns with the cached
  one: when they are equal it reports no change and leaves the scope as it is,
  otherwise it stores the new map and reports a change. A second call right
  after a first always reports no change and changes nothing. When the cache
  already equals the map built from the current inputs, two calls in a row
  both report no change, and an update whose previous props are the current
  ones returns and leaves the whole world unchanged: no reset and no bind.
\<close>

theorem updateMap_compares_with_cache:
  "updateMap this =
     (if ownHotKeyMap this = Some (buildMap this) then (False, this)
      else (True, this\<lparr>ownHotKeyMap := Some (buildMap this)\<rparr>))
   \<and> fst (updateMap (snd (updateMap this))) = False
   \<and> snd (updateMap (snd (updateMap this))) = snd (updateMap this)
   \<and> (ownHotKeyMap this = Some (buildMap this) \<longrightarrow>
        updateMap this = (False, this) \<and> updateMap (snd (updateMap this)) = (False, this))
   \<and> (ownHotKeyMap (heap w r) = Some (buildMap (heap w r)) \<longrightarrow>
        updateHotKeys r False (props (heap w r)) w = Some (Returned w)
        \<and> componentDidUpdate r (props (heap w r)) w = Some (Returned w))"
  by (simp add: updateMap_result buildMap_cache_irrelevant updateHotKeys_def
      componentDidUpdate_def hasChanged_def handlersOf_def Let_def split: option.split)

theorem updateMap_compares_with_cache_witness:
  "ownHotKeyMap mountedRoot = Some (buildMap mountedRoot)
   \<and> updateMap mountedRoot = (False, mountedRoot)
   \<and> updateMap (snd (updateMap mountedRoot)) = (False, mountedRoot)
   \<and> ownHotKeyMap (heap mountedRootWorld 0) = Some (buildMap (heap mountedRootWorld 0))
   \<and> componentDidUpdate 0 (props (heap mountedRootWorld 0)) mountedRootWorld
       = Some (Returned mountedRootWorld)"
proof -
  have a: "ownHotKeyMap mountedRoot = Some (buildMap mountedRoot)"
    by (simp add: mountedRoot_def rootScope_def buildMap_def orEmpty_def noProps_def)
  have b: "ownHotKeyMap (heap mountedRootWorld 0) = Some (buildMap (heap mountedRootWorld 0))"
    using a by (simp add: mountedRootWorld_def)
  from a b updateMap_compares_with_cache [of mountedRoot mountedRootWorld 0]
  show ?thesis by simp
qed

section \<open>Focus loss and unmount\<close>

text \<open>
  C7. Let \<open>ps\<close> be the ancestors of a scope, nearest first. \<open>onBlur\<close> sets
  the scope's observed focus to false and then writes null to
  \<open>lastChildSequence\<close> of every ancestor. \<open>componentWillUnmount\<close> writes null
  to \<open>lastChildSequence\<close> of every ancestor and after that resets the scope's
  matcher, which leaves it with no binding. Nothing else changes in either.
\<close>

theorem blur_and_unmount_clear_ancestors:
  assumes "ancestorChain (heap w) this ps"
  shows "onBlur this w =
           Some (w\<lparr>heap := (\<lambda>r. if r = this then (heap w this)\<lparr>isFocused := False\<rparr>
                               else if r \<in> set ps
                                    then (heap w r)\<lparr>lastChildSequence := None\<rparr>
                                    else heap w r),
                   trace := trace w
                     @ (case onBlurProp (props (heap w this)) of
                          None \<Rightarrow> [] | Some f \<Rightarrow> [BlurPropCalled f])
                     @ map (\<lambda>p. Wrote p None) ps\<rparr>)
       \<and> componentWillUnmount this w =
           Some (w\<lparr>heap := (\<lambda>r. if r = this
                               then (case mousetrap (heap w this) of
                                       None \<Rightarrow> heap w this
                                     | Some m \<Rightarrow> (heap w this)
                                         \<lparr>mousetrap := Some (m\<lparr>bindings := []\<rparr>)\<rparr>)
                               else if r \<in> set ps
                                    then (heap w r)\<lparr>lastChildSequence := None\<rparr>
                                    else heap w r),
                   trace := trace w @ map (\<lambda>p. Wrote p None) ps
                     @ (case mousetrap (heap w this) of
                          None \<Rightarrow> [] | Some m \<Rightarrow> [MousetrapReset this])\<rparr>)"
proof
  from assms have ns: "this \<notin> set ps" by (rule ancestorChain_not_self)
  show "onBlur this w =
           Some (w\<lparr>heap := (\<lambda>r. if r = this then (heap w this)\<lparr>isFocused := False\<rparr>
                               else if r \<in> set ps
                                    then (heap w r)\<lparr>lastChildSequence := None\<rparr>
                                    else heap w r),
                   trace := trace w
                     @ (case onBlurProp (props (heap w this)) of
                          None \<Rightarrow> [] | Some f \<Rightarrow> [BlurPropCalled f])
                     @ map (\<lambda>p. Wrote p None) ps\<rparr>)"
    using ns by (simp add: onBlur_chain [OF assms] notified_eq fun_eq_iff)
  show "componentWillUnmount this w =
           Some (w\<lparr>heap := (\<lambda>r. if r = this
                               then (case mousetrap (heap w this) of
                                       None \<Rightarrow> heap w this
                                     | Some m \<Rightarrow> (heap w this)
                                         \<lparr>mousetrap := Some (m\<lparr>bindings := []\<rparr>)\<rparr>)
                               else if r \<in> set ps
                                    then (heap w r)\<lparr>lastChildSequence := None\<rparr>
                                    else heap w r),
                   trace := trace w @ map (\<lambda>p. Wrote p None) ps
                     @ (case mousetrap (heap w this) of
                          None \<Rightarrow> [] | Some m \<Rightarrow> [MousetrapReset this])\<rparr>)"
    using ns
    by (simp add: componentWillUnmount_chain [OF assms] resetMousetrap_def notified_eq
        mt_reset_def fun_eq_iff split: option.split)
qed


theorem blur_and_unmount_clear_ancestors_witness:
  "ancestorChain (heap handledWorld) 2 [1, 0]
   \<and> map_option (\<lambda>w'. (isFocused (heap w' 2), lastChildSequence (heap w' 1),
                         lastChildSequence (heap w' 0), trace w'))
         (onBlur 2 handledWorld)
       = Some (False, None, None, [Wrote 1 None, Wrote 0 None])
   \<and> map_option (\<lambda>w'. (mousetrap (heap w' 2), lastChildSequence (heap w' 1),
                         lastChildSequence (heap w' 0), trace w'))
         (componentWillUnmount 2 handledWorld)
       = Some (Some \<lparr>boundTo = OwnNode 2, bindings = []\<rparr>, None, None,
               [Wrote 1 None, Wrote 0 None, MousetrapReset 2])"
proof -
  have c: "ancestorChain (heap handledWorld) 2 [1, 0]"
    by (simp add: handledWorld_def exampleWorld_def exampleHeap_def rootScope_def childOf_def)
  from c blur_and_unmount_clear_ancestors [OF c]
  show ?thesis
    by (simp add: handledWorld_def exampleWorld_def exampleHeap_def rootScope_def childOf_def
        noProps_def)
qed

section \<open>Rebinding\<close>

text \<open>
  C10, at an input where the code does not do what the claim says. Scope 2
  is mounted under scopes 1 and 0, which hold \<open>z\<close> as their last handled
  sequence; its previous props had no \<^verbatim>\<open>handlers\<close> and its current
  props have two, so its handlers changed and the claim asks for null to be
  written to both ancestors before the rebinding. \<open>updateHotKeys\<close> takes
  the current handlers as the default for the absent previous ones, finds no
  change, and returns the world as it was: no ancestor is notified and both
  keep \<open>z\<close>. With the empty object as the previous handlers, the same update
  writes null to both ancestors and then resets and binds.
\<close>

theorem late_child_handlers_ancestors_not_notified:
  "ancestorChain (heap lateChildWorld) 2 [1, 0]
   \<and> handlers lateChildPrevProps = None
   \<and> handlersOf (props (heap lateChildWorld 2)) = [(''x'', 20), (''y'', 21)]
   \<and> hasChanged (handlersOf (props (heap lateChildWorld 2))) (handlersOf lateChildPrevProps)
   \<and> lastChildSequence (heap lateChildWorld 1) = Some (Str ''z'')
   \<and> lastChildSequence (heap lateChildWorld 0) = Some (Str ''z'')
   \<and> componentDidUpdate 2 lateChildPrevProps lateChildWorld = Some (Returned lateChildWorld)
   \<and> componentDidUpdate 2 (lateChildPrevProps\<lparr>handlers := Some []\<rparr>) lateChildWorld
       = Some (Returned (lateChildWorld
           \<lparr>heap := (heap lateChildWorld)
              (1 := (heap lateChildWorld 1)\<lparr>lastChildSequence := None\<rparr>,
               0 := (heap lateChildWorld 0)\<lparr>lastChildSequence := None\<rparr>,
               2 := (heap lateChildWorld 2)
                 \<lparr>mousetrap := Some
                    \<lparr>boundTo = OwnNode 2,
                     bindings =
                       [\<lparr>callback = (2, 20), action = None, sequence = Some ''z''\<rparr>,
                        \<lparr>callback = (2, 21), action = None, sequence = Some ''b''\<rparr>,
                        \<lparr>callback = (2, 21), action = Some ''keyup'',
                         sequence = Some ''c''\<rparr>]\<rparr>\<rparr>),
            trace :=
              [Wrote 1 None, Wrote 0 None, MousetrapReset 2,
               MousetrapBind 2 \<lparr>callback = (2, 20), action = None, sequence = Some ''z''\<rparr>,
               MousetrapBind 2 \<lparr>callback = (2, 21), action = None, sequence = Some ''b''\<rparr>,
               MousetrapBind 2 \<lparr>callback = (2, 21), action = Some ''keyup'',
                                sequence = Some ''c''\<rparr>]\<rparr>))"
proof -
  have c: "ancestorChain (heap lateChildWorld) 2 [1, 0]"
    by (simp add: lateChildWorld_def exampleWorld_def mounted_def rootScope_def childOf_def)
  have u: "updateMap (heap lateChildWorld 2) = (False, heap lateChildWorld 2)"
    by (simp add: lateChildWorld_def lateChildPrevProps_def mounted_def childOf_def noProps_def
        updateMap_result buildMap_def orEmpty_def)
  have hs: "handlersOf (props (heap lateChildWorld 2)) = [(''x'', 20), (''y'', 21)]"
    by (simp add: lateChildWorld_def childOf_def noProps_def handlersOf_def)
  have hp: "handlers lateChildPrevProps = None" "handlersOf lateChildPrevProps = []"
    by (simp_all add: lateChildPrevProps_def handlersOf_def)
  have sh: "sequenceHandlersOf 2 (heap lateChildWorld 2)
       = [\<lparr>callback = (2, 20), action = None, sequence = Some ''z''\<rparr>,
          \<lparr>callback = (2, 21), action = None, sequence = Some ''b''\<rparr>,
          \<lparr>callback = (2, 21), action = Some ''keyup'', sequence = Some ''c''\<rparr>]"
    by (simp add: lateChildWorld_def lateChildPrevProps_def mounted_def childOf_def noProps_def
        sequenceHandlersOf_def handlersOf_def getMap_def orEmpty_def sequencesFromKeyMap_def
        getProperty_def rootKeyMap_def buildMap_def)
  have mt: "mousetrap (heap lateChildWorld 2) = Some \<lparr>boundTo = OwnNode 2, bindings = []\<rparr>"
    by (simp add: lateChildWorld_def lateChildPrevProps_def mounted_def childOf_def noProps_def
        attachTarget_def sequenceHandlersOf_def handlersOf_def)
  have tr: "trace lateChildWorld = []"
    by (simp add: lateChildWorld_def exampleWorld_def)
  have l: "lastChildSequence (heap lateChildWorld 1) = Some (Str ''z'')"
    "lastChildSequence (heap lateChildWorld 0) = Some (Str ''z'')"
    by (simp_all add: lateChildWorld_def)
  have h2: "heap (notified None [1, 0] lateChildWorld) 2 = heap lateChildWorld 2"
    by (simp add: heap_notified)
  have strings: "\<forall>sh \<in> set (sequenceHandlersOf 2 (heap (notified None [1, 0] lateChildWorld) 2)).
                   sequence sh \<noteq> None"
    unfolding h2 by (simp add: sh)
  have absent: "componentDidUpdate 2 lateChildPrevProps lateChildWorld
                = Some (Returned lateChildWorld)"
    by (simp add: componentDidUpdate_def updateHotKeys_def Let_def u hs hp hasChanged_def)
  have empty: "componentDidUpdate 2 (lateChildPrevProps\<lparr>handlers := Some []\<rparr>) lateChildWorld
       = Some (syncHandlersToMousetrap 2 (notified None [1, 0] lateChildWorld))"
    by (simp add: componentDidUpdate_def updateHotKeys_chain [OF c] u hs hasChanged_def)
  have n: "notified None [1, 0] lateChildWorld =
      lateChildWorld\<lparr>heap := (heap lateChildWorld)
              (1 := (heap lateChildWorld 1)\<lparr>lastChildSequence := None\<rparr>,
               0 := (heap lateChildWorld 0)\<lparr>lastChildSequence := None\<rparr>),
            trace := [Wrote 1 None, Wrote 0 None]\<rparr>"
    by (simp add: notified_def writeLast_def tr)
  show ?thesis
    using c l
    unfolding absent empty
    unfolding syncHandlersToMousetrap_strings [OF strings]
    unfolding h2 n
    by (simp add: hs hp mt sh hasChanged_def)
qed

text \<open>
  C6, at an input where the code does not do what the claim says. The scope
  is mounted, its previous props had no \<^verbatim>\<open>handlers\<close> and its current
  props have the handlers \<open>{x: 10}\<close>, so the handlers differ from what they
  were, and the claim asks for one binding, of the sequence \<open>a\<close>.
  \<open>updateHotKeys\<close> takes the current handlers as the default for the absent
  previous ones, finds no change, and returns the world as it was: the
  matcher is not reset and the new handler is bound to nothing. With the
  empty object as the previous handlers, the same update resets the matcher
  and binds the handler.
\<close>

theorem late_handlers_never_bound:
  "handlers lateHandlersPrevProps = None
   \<and> handlersOf lateHandlersPrevProps = []
   \<and> handlersOf (props (heap lateHandlersWorld 0)) = [(''x'', 10)]
   \<and> hasChanged (handlersOf (props (heap lateHandlersWorld 0))) (handlersOf lateHandlersPrevProps)
   \<and> mousetrap (heap lateHandlersWorld 0) = Some \<lparr>boundTo = OwnNode 0, bindings = []\<rparr>
   \<and> sequenceHandlersOf 0 (heap lateHandlersWorld 0)
       = [\<lparr>callback = (0, 10), action = None, sequence = Some ''a''\<rparr>]
   \<and> componentDidUpdate 0 lateHandlersPrevProps lateHandlersWorld
       = Some (Returned lateHandlersWorld)
   \<and> componentDidUpdate 0 (lateHandlersPrevProps\<lparr>handlers := Some []\<rparr>) lateHandlersWorld
       = Some (Returned (lateHandlersWorld
           \<lparr>heap := (heap lateHandlersWorld)
              (0 := (heap lateHandlersWorld 0)
                 \<lparr>mousetrap := Some
                    \<lparr>boundTo = OwnNode 0,
                     bindings = [\<lparr>callback = (0, 10), action = None,
                                  sequence = Some ''a''\<rparr>]\<rparr>\<rparr>),
            trace := [MousetrapReset 0,
                      MousetrapBind 0 \<lparr>callback = (0, 10), action = None,
                                       sequence = Some ''a''\<rparr>]\<rparr>))"
proof -
  have c: "ancestorChain (heap lateHandlersWorld) 0 []"
    by (simp add: lateHandlersWorld_def mountedRoot_def rootScope_def)
  have u: "updateMap (heap lateHandlersWorld 0) = (False, heap lateHandlersWorld 0)"
    by (simp add: lateHandlersWorld_def mountedRoot_def rootScope_def noProps_def
        updateMap_result buildMap_def orEmpty_def)
  have hs: "handlersOf (props (heap lateHandlersWorld 0)) = [(''x'', 10)]"
    by (simp add: lateHandlersWorld_def mountedRoot_def rootScope_def noProps_def handlersOf_def)
  have sh: "sequenceHandlersOf 0 (heap lateHandlersWorld 0)
       = [\<lparr>callback = (0, 10), action = None, sequence = Some ''a''\<rparr>]"
    by (simp add: lateHandlersWorld_def mountedRoot_def rootScope_def noProps_def
        sequenceHandlersOf_def handlersOf_def getMap_def orEmpty_def sequencesFromKeyMap_def
        getProperty_def rootKeyMap_def)
  have strings: "\<forall>sh \<in> set (sequenceHandlersOf 0 (heap lateHandlersWorld 0)). sequence sh \<noteq> None"
    by (simp add: sh)
  have mt: "mousetrap (heap lateHandlersWorld 0) = Some \<lparr>boundTo = OwnNode 0, bindings = []\<rparr>"
    by (simp add: lateHandlersWorld_def)
  have hp: "handlers lateHandlersPrevProps = None" "handlersOf lateHandlersPrevProps = []"
    by (simp_all add: lateHandlersPrevProps_def handlersOf_def)
  have tr: "trace lateHandlersWorld = []"
    by (simp add: lateHandlersWorld_def exampleWorld_def)
  have absent: "componentDidUpdate 0 lateHandlersPrevProps lateHandlersWorld
                = Some (Returned lateHandlersWorld)"
    by (simp add: componentDidUpdate_def updateHotKeys_def Let_def u hs hasChanged_def
        lateHandlersPrevProps_def)
  have empty: "componentDidUpdate 0 (lateHandlersPrevProps\<lparr>handlers := Some []\<rparr>) lateHandlersWorld
       = Some (syncHandlersToMousetrap 0 lateHandlersWorld)"
    by (simp add: componentDidUpdate_def updateHotKeys_chain [OF c] u hs hasChanged_def
        notified_Nil)
  show ?thesis
    unfolding absent empty syncHandlersToMousetrap_strings [OF strings]
    by (simp add: mt sh tr hs hp hasChanged_def)
qed

section \<open>The bind target\<close>




section \<open>What a scope changes in other scopes\<close>

text \<open>
  C9. Let \<open>ps\<close> be the ancestors of a scope, nearest first. Every operation of
  the scope ends, by returning or by the throw of a \<^verbatim>\<open>bind\<close>, and in the
  state it leaves, every other scope has the props (with the local key map),
  the context, the observed focus, the merged map and the matcher it had
  before. The one field of another scope that can differ afterwards is
  \<open>lastChildSequence\<close>, only in an ancestor, and then the write of the new
  value to that ancestor by \<open>childHandledSequence\<close> is among the effects of
  the operation.
\<close>

theorem other_scopes_only_lastChildSequence:
  assumes "ancestorChain (heap w) this ps"
  shows "\<exists>out. perform opn this w = Some out
           \<and> (\<forall>r. r \<noteq> this \<longrightarrow>
                props (heap (finalState out) r) = props (heap w r)
              \<and> ctx (heap (finalState out) r) = ctx (heap w r)
              \<and> isFocused (heap (finalState out) r) = isFocused (heap w r)
              \<and> ownHotKeyMap (heap (finalState out) r) = ownHotKeyMap (heap w r)
              \<and> mousetrap (heap (finalState out) r) = mousetrap (heap w r)
              \<and> (lastChildSequence (heap (finalState out) r) \<noteq> lastChildSequence (heap w r) \<longrightarrow>
                    r \<in> set ps
                  \<and> Wrote r (lastChildSequence (heap (finalState out) r))
                       \<in> set (drop (length (trace w)) (trace (finalState out)))))"
proof -
  let ?F = "\<lambda>w'. (\<forall>r. r \<noteq> this \<longrightarrow>
                props (heap w' r) = props (heap w r)
              \<and> ctx (heap w' r) = ctx (heap w r)
              \<and> isFocused (heap w' r) = isFocused (heap w r)
              \<and> ownHotKeyMap (heap w' r) = ownHotKeyMap (heap w r)
              \<and> mousetrap (heap w' r) = mousetrap (heap w r)
              \<and> (lastChildSequence (heap w' r) \<noteq> lastChildSequence (heap w r) \<longrightarrow>
                    r \<in> set ps
                  \<and> Wrote r (lastChildSequence (heap w' r))
                       \<in> set (drop (length (trace w)) (trace w'))))"
  from assms have ns: "this \<notin> set ps" by (rule ancestorChain_not_self)
  have update: "\<exists>out. updateHotKeys this force prevProps w0 = Some out \<and> ?F (finalState out)"
    if c0: "ancestorChain (heap w0) this ps"
      and h0: "\<And>r. r \<noteq> this \<Longrightarrow> heap w0 r = heap w r"
      and t0: "trace w0 = trace w"
    for force prevProps w0
  proof -
    let ?w1 = "w0\<lparr>heap := (heap w0)(this := snd (updateMap (heap w0 this)))\<rparr>"
    let ?w2 = "syncHandlersToMousetrap this (notified None ps ?w1)"
    show ?thesis
    proof (cases "force \<or> fst (updateMap (heap w0 this))
              \<or> hasChanged (handlersOf (props (heap w0 this)))
                   (case handlers prevProps of
                      None \<Rightarrow> handlersOf (props (heap w0 this)) | Some hs \<Rightarrow> hs)")
      case True
      then have "updateHotKeys this force prevProps w0 = Some ?w2"
        by (simp add: updateHotKeys_chain [OF c0])
      moreover from trace_sync [of this "notified None ps ?w1"]
      obtain post where "trace (finalState ?w2) = trace (notified None ps ?w1) @ post" ..
      then have "?F (finalState ?w2)"
        by (intro frame_from_shape [where ns = ps and s = None and pre = "[]" and post = post])
          (simp_all add: heap_sync_other heap_notified trace_notified h0 t0)
      ultimately show ?thesis by blast
    next
      case False
      then have "updateHotKeys this force prevProps w0 = Some (Returned ?w1)"
        by (simp add: updateHotKeys_chain [OF c0])
      moreover have "?F (finalState (Returned ?w1))"
        by (rule frame_from_shape [where ns = "[]" and s = None and pre = "[]" and post = "[]"]) (simp_all add: h0 t0)
      ultimately show ?thesis by blast
    qed
  qed
  show ?thesis
  proof (cases opn)
    case WillMount
    let ?w' = "w\<lparr>heap := (heap w)(this := snd (updateMap (heap w this)))\<rparr>"
    have "perform opn this w = Some (Returned ?w')"
      using WillMount by (simp add: componentWillMount_def)
    moreover have "?F (finalState (Returned ?w'))"
      by (rule frame_from_shape [where ns = "[]" and s = None and pre = "[]" and post = "[]"]) simp_all
    ultimately show ?thesis by blast
  next
    case DidMount
    let ?w0 = "w\<lparr>heap := (heap w)(this := (heap w this)
              \<lparr>mousetrap := Some \<lparr>boundTo = attachTarget this (props (heap w this)),
                                 bindings = []\<rparr>\<rparr>)\<rparr>"
    have "ancestorChain (heap ?w0) this ps = ancestorChain (heap w) this ps"
      by (rule ancestorChain_cong) simp
    with assms have "ancestorChain (heap ?w0) this ps" by simp
    from update [OF this, of True noProps] DidMount show ?thesis
      by (simp add: componentDidMount_def)
  next
    case (DidUpdate prevProps)
    from update [OF assms, of False prevProps] DidUpdate show ?thesis
      by (simp add: componentDidUpdate_def)
  next
    case WillUnmount
    let ?w' = "resetMousetrap this (notified None ps w)"
    have "perform opn this w = Some (Returned ?w')"
      using WillUnmount by (simp add: componentWillUnmount_chain [OF assms])
    moreover have "?F (finalState (Returned ?w'))"
      by (rule frame_from_shape [where ns = ps and s = None and pre = "[]"
            and post = "case mousetrap (heap (notified None ps w) this) of
                          None \<Rightarrow> [] | Some m \<Rightarrow> [MousetrapReset this]"])
        (simp_all add: heap_resetMousetrap_other heap_notified trace_resetMousetrap trace_notified)
    ultimately show ?thesis by blast
  next
    case Focus
    let ?w' = "w\<lparr>heap := (heap w)(this := (heap w this)\<lparr>isFocused := True\<rparr>),
             trace := trace w @ (case onFocusProp (props (heap w this)) of
                                   None \<Rightarrow> [] | Some f \<Rightarrow> [FocusPropCalled f])\<rparr>"
    have "perform opn this w = Some (Returned ?w')"
      using Focus by (simp add: onFocus_result)
    moreover have "?F (finalState (Returned ?w'))"
      by (rule frame_from_shape [where ns = "[]" and s = None and pre = "[]" and post = "case onFocusProp (props (heap w this)) of
                                   None \<Rightarrow> [] | Some f \<Rightarrow> [FocusPropCalled f]"]) simp_all
    ultimately show ?thesis by blast
  next
    case Blur
    let ?w1 = "w\<lparr>heap := (heap w)(this := (heap w this)\<lparr>isFocused := False\<rparr>),
          trace := trace w @ (case onBlurProp (props (heap w this)) of
                                None \<Rightarrow> [] | Some f \<Rightarrow> [BlurPropCalled f])\<rparr>"
    let ?w' = "notified None ps ?w1"
    have "perform opn this w = Some (Returned ?w')"
      using Blur by (simp add: onBlur_chain [OF assms])
    moreover have "?F (finalState (Returned ?w'))"
      by (rule frame_from_shape [where ns = ps and s = None and post = "[]"
            and pre = "case onBlurProp (props (heap w this)) of
                                None \<Rightarrow> [] | Some f \<Rightarrow> [BlurPropCalled f]"])
        (simp_all add: heap_notified trace_notified)
    ultimately show ?thesis by blast
  next
    case (MatcherCallback h event fired)
    show ?thesis
    proof (cases "effectiveFocus (heap w this) \<and> differs fired (lastChildSequence (heap w this))")
      case True
      let ?w' = "(notified (map_option Str fired) ps w)
                  \<lparr>trace := trace (notified (map_option Str fired) ps w)
                             @ [HandlerCalled h event fired]\<rparr>"
      have "perform opn this w = Some (Returned ?w')"
        using MatcherCallback True by (simp add: callback_run_chain [OF assms])
      moreover have "?F (finalState (Returned ?w'))"
        by (rule frame_from_shape [where ns = ps and s = "map_option Str fired" and pre = "[]"
              and post = "[HandlerCalled h event fired]"])
          (simp_all add: heap_notified trace_notified)
      ultimately show ?thesis by blast
    next
      case False
      have "perform opn this w = Some (Returned w)"
        using MatcherCallback False by (auto simp: callback_run_def)
      moreover have "?F (finalState (Returned w))"
        by (rule frame_from_shape [where ns = "[]" and s = None and pre = "[]" and post = "[]"]) simp_all
      ultimately show ?thesis by blast
    qed
  next
    case (ChildHandled s)
    let ?w' = "notified s (this # ps) w"
    have "perform opn this w = Some (Returned ?w')"
      using ChildHandled by (simp add: childHandledSequence_chain [OF assms])
    moreover have "?F (finalState (Returned ?w'))"
      by (rule frame_from_shape [where ns = ps and s = s and pre = "[Wrote this s]" and post = "[]"])
        (simp_all add: heap_notified trace_notified)
    ultimately show ?thesis by blast
  qed
qed


theorem other_scopes_only_lastChildSequence_witness:
  "ancestorChain (heap handledWorld) 2 [1, 0]
   \<and> (1::nat) \<noteq> 2
   \<and> (\<exists>w'. perform Blur 2 handledWorld = Some (Returned w')
          \<and> props (heap w' 1) = props (heap handledWorld 1)
          \<and> isFocused (heap w' 1) = isFocused (heap handledWorld 1)
          \<and> ownHotKeyMap (heap w' 1) = ownHotKeyMap (heap handledWorld 1)
          \<and> lastChildSequence (heap handledWorld 1) = Some (Str ''z'')
          \<and> lastChildSequence (heap w' 1) = None)"
proof -
  have c: "ancestorChain (heap handledWorld) 2 [1, 0]"
    by (simp add: handledWorld_def exampleWorld_def exampleHeap_def rootScope_def childOf_def)
  from other_scopes_only_lastChildSequence [OF c, of Blur]
  obtain out where p0: "perform Blur 2 handledWorld = Some out"
    and f0: "\<forall>r. r \<noteq> 2 \<longrightarrow>
                props (heap (finalState out) r) = props (heap handledWorld r)
              \<and> ctx (heap (finalState out) r) = ctx (heap handledWorld r)
              \<and> isFocused (heap (finalState out) r) = isFocused (heap handledWorld r)
              \<and> ownHotKeyMap (heap (finalState out) r) = ownHotKeyMap (heap handledWorld r)
              \<and> mousetrap (heap (finalState out) r) = mousetrap (heap handledWorld r)
              \<and> (lastChildSequence (heap (finalState out) r)
                    \<noteq> lastChildSequence (heap handledWorld r) \<longrightarrow>
                    r \<in> set [1, 0]
                  \<and> Wrote r (lastChildSequence (heap (finalState out) r))
                       \<in> set (drop (length (trace handledWorld)) (trace (finalState out))))"
    by blast
  from p0 obtain w' where out: "out = Returned w'"
    by (auto simp: onBlur_chain [OF c])
  from p0 out have p: "perform Blur 2 handledWorld = Some (Returned w')" by simp
  from f0 out have f: "\<forall>r. r \<noteq> 2 \<longrightarrow>
                props (heap w' r) = props (heap handledWorld r)
              \<and> isFocused (heap w' r) = isFocused (heap handledWorld r)
              \<and> ownHotKeyMap (heap w' r) = ownHotKeyMap (heap handledWorld r)"
    by simp
  from f have f1: "props (heap w' 1) = props (heap handledWorld 1)
      \<and> isFocused (heap w' 1) = isFocused (heap handledWorld 1)
      \<and> ownHotKeyMap (heap w' 1) = ownHotKeyMap (heap handledWorld 1)"
    by simp
  from p have l: "lastChildSequence (heap w' 1) = None"
    by (auto simp: onBlur_chain [OF c] heap_notified)
  have l0: "lastChildSequence (heap handledWorld 1) = Some (Str ''z'')"
    by (simp add: handledWorld_def)
  from c p f1 l l0 show ?thesis by auto
qed

end
